theory Spec2Isabelle
  imports Complex_Main
begin

section \<open>Python and NumPy values\<close>

text \<open>
  The program is a Python script over NumPy arrays of float64. An array is modelled as a
  list of reals (rounding, infinities and NaN are not modelled; arrays of any length can be
  allocated), a Python \<open>int\<close> as \<open>int\<close>, and an exception as a value of
  \<open>py_error\<close>: a call returns \<open>Inl e\<close> where Python raises \<open>e\<close>.
\<close>

datatype py_error = ValueError | IndexError

text \<open>
  The process-wide random stream of \<open>np.random\<close> is library code. It is taken as a
  parameter: the state that \<open>np.random.seed(s)\<close> installs for an accepted seed, and
  \<open>np.random.randn()\<close>, which returns one draw and the advanced state. The state
  is passed explicitly and survives an exception, as the global does.
\<close>

record 'g np_random =
  mt_seed :: "int \<Rightarrow> 'g"
  randn :: "'g \<Rightarrow> real \<times> 'g"

text \<open>\<open>np.random.seed(s)\<close> accepts the seeds \<open>0 .. 2**32 - 1\<close> and raises
  \<open>ValueError\<close> on every other integer, leaving the stream as it was.\<close>

definition np_random_seed :: "'g np_random \<Rightarrow> int \<Rightarrow> 'g \<Rightarrow> (py_error + unit) \<times> 'g" where
  "np_random_seed R s g =
     (if 0 \<le> s \<and> s < 2 ^ 32 then (Inr (), mt_seed R s) else (Inl ValueError, g))"

text \<open>\<open>np.zeros(n)\<close> and \<open>np.ones(n)\<close>: a negative dimension raises \<open>ValueError\<close>.\<close>

definition np_zeros :: "int \<Rightarrow> py_error + real list" where
  "np_zeros n = (if n < 0 then Inl ValueError else Inr (replicate (nat n) 0))"

definition np_ones :: "int \<Rightarrow> py_error + real list" where
  "np_ones n = (if n < 0 then Inl ValueError else Inr (replicate (nat n) 1))"

text \<open>Reading and writing one element at a non-negative index; out of bounds raises
  \<open>IndexError\<close>.\<close>

definition getitem :: "real list \<Rightarrow> nat \<Rightarrow> py_error + real" where
  "getitem xs i = (if i < length xs then Inr (xs ! i) else Inl IndexError)"

definition setitem :: "real list \<Rightarrow> nat \<Rightarrow> real \<Rightarrow> py_error + real list" where
  "setitem xs i v = (if i < length xs then Inr (xs[i := v]) else Inl IndexError)"

text \<open>\<open>range(lo, n)\<close> for a non-negative \<open>lo\<close>: empty when \<open>n \<le> lo\<close>.\<close>

definition py_range :: "nat \<Rightarrow> int \<Rightarrow> nat list" where
  "py_range lo n = [lo ..< nat n]"

section \<open>The generator: \<open>generate_markov_chain\<close>\<close>

text \<open>
  The loop \<open>for t in range(1, num_points): series[t] = alpha * series[t-1] + np.random.randn()\<close>.
  The right-hand side is evaluated left to right (the read of \<open>series[t-1]\<close>, then the
  draw), and the element is written last.
\<close>

fun ar_loop :: "'g np_random \<Rightarrow> real \<Rightarrow> nat list \<Rightarrow> real list \<Rightarrow> 'g \<Rightarrow> (py_error + real list) \<times> 'g" where
  "ar_loop R alpha [] series g = (Inr series, g)"
| "ar_loop R alpha (t # ts) series g =
     (case getitem series (t - 1) of
        Inl e \<Rightarrow> (Inl e, g)
      | Inr prev \<Rightarrow>
          (case randn R g of (eps, g') \<Rightarrow>
             (case setitem series t (alpha * prev + eps) of
                Inl e \<Rightarrow> (Inl e, g')
              | Inr series' \<Rightarrow> ar_loop R alpha ts series' g')))"

definition generate_markov_chain ::
  "'g np_random \<Rightarrow> int \<Rightarrow> real \<Rightarrow> int option \<Rightarrow> 'g \<Rightarrow> (py_error + real list) \<times> 'g" where
  "generate_markov_chain R num_points alpha random_seed g =
     (case (case random_seed of None \<Rightarrow> (Inr (), g) | Some s \<Rightarrow> np_random_seed R s g) of
        (Inl e, g1) \<Rightarrow> (Inl e, g1)
      | (Inr u, g1) \<Rightarrow>
          (case np_zeros num_points of
             Inl e \<Rightarrow> (Inl e, g1)
           | Inr series \<Rightarrow>
               (case randn R g1 of (x0, g2) \<Rightarrow>
                  (case setitem series 0 x0 of
                     Inl e \<Rightarrow> (Inl e, g2)
                   | Inr series1 \<Rightarrow> ar_loop R alpha (py_range 1 num_points) series1 g2))))"

text \<open>The stream after \<open>k\<close> draws from state \<open>g\<close>, and the draw taken there.\<close>

fun advance :: "'g np_random \<Rightarrow> 'g \<Rightarrow> nat \<Rightarrow> 'g" where
  "advance R g 0 = g"
| "advance R g (Suc k) = advance R (snd (randn R g)) k"

definition draw :: "'g np_random \<Rightarrow> 'g \<Rightarrow> nat \<Rightarrow> real" where
  "draw R g k = fst (randn R (advance R g k))"

text \<open>The seeds with which the generator gets past \<open>np.random.seed\<close>: no seed at all, or
  one in \<open>0 .. 2**32 - 1\<close>.\<close>

definition seed_accepted :: "int option \<Rightarrow> bool" where
  "seed_accepted random_seed =
     (case random_seed of None \<Rightarrow> True | Some s \<Rightarrow> 0 \<le> s \<and> s < 2 ^ 32)"

section \<open>The smoother: \<open>moving_average\<close>\<close>

text \<open>
  \<open>np.correlate(a, v, 'valid')\<close> for \<open>len(v) \<le> len(a)\<close>: output \<open>i\<close> is the
  sum of \<open>a[i + j] * v[j]\<close> over the positions \<open>j\<close> of \<open>v\<close>, and there are
  \<open>len(a) - len(v) + 1\<close> outputs.
\<close>

definition np_correlate_valid :: "real list \<Rightarrow> real list \<Rightarrow> real list" where
  "np_correlate_valid a v =
     map (\<lambda>i. \<Sum>j < length v. a ! (i + j) * v ! j) [0 ..< length a - length v + 1]"

text \<open>
  \<open>np.convolve(a, v, mode='valid')\<close>: NumPy swaps the operands when \<open>v\<close> is the longer
  one, raises \<open>ValueError\<close> when either is empty, and otherwise correlates \<open>a\<close> with
  the reversed \<open>v\<close>.
\<close>

definition np_convolve_valid :: "real list \<Rightarrow> real list \<Rightarrow> py_error + real list" where
  "np_convolve_valid a v =
     (case (if length a < length v then (v, a) else (a, v)) of
        (a', v') \<Rightarrow>
          if length a' = 0 then Inl ValueError
          else if length v' = 0 then Inl ValueError
          else Inr (np_correlate_valid a' (rev v')))"

text \<open>\<open>window = np.ones(window_size) / window_size\<close>, then the valid-mode convolution.
  The division is elementwise, so an empty window divides nothing.\<close>

definition moving_average :: "real list \<Rightarrow> int \<Rightarrow> py_error + real list" where
  "moving_average series window_size =
     (case np_ones window_size of
        Inl e \<Rightarrow> Inl e
      | Inr ones \<Rightarrow> np_convolve_valid series (map (\<lambda>x. x / of_int window_size) ones))"

section \<open>The series of every coefficient: \<open>series_dict\<close>\<close>








section \<open>A small random source for the worked examples\<close>

text \<open>The state is a counter; seeding sets it to the seed, a draw returns the counter and
  increments it. The table gives the eight coefficients the text Python prints for them.\<close>

definition counter_source :: "nat np_random" where
  "counter_source = \<lparr> mt_seed = (\<lambda>s. nat s), randn = (\<lambda>g. (real g, Suc g)) \<rparr>"


section \<open>The loop\<close>

lemma ar_loop_upt:
  "1 \<le> k \<Longrightarrow> k \<le> n \<Longrightarrow> length series = n \<Longrightarrow>
   \<exists>series'. ar_loop R alpha [k ..< n] series g = (Inr series', advance R g (n - k))
     \<and> length series' = n
     \<and> (\<forall>i < k. series' ! i = series ! i)
     \<and> (\<forall>t. k \<le> t \<and> t < n \<longrightarrow> series' ! t = alpha * series' ! (t - 1) + draw R g (t - k))"
proof (induction "n - k" arbitrary: k series g)
  case 0
  then show ?case by simp
next
  case (Suc d)
  then have kn: "k < n" by simp
  obtain eps g' where rn: "randn R g = (eps, g')" by (cases "randn R g")
  let ?s1 = "series[k := alpha * series ! (k - 1) + eps]"
  have d: "d = n - Suc k" using Suc.hyps by simp
  have len1: "length ?s1 = n" using Suc.prems by simp
  from Suc.hyps(1)[OF d _ _ len1, of g'] kn
  obtain s' where s': "ar_loop R alpha [Suc k ..< n] ?s1 g' = (Inr s', advance R g' (n - Suc k))"
    "length s' = n" "\<forall>i < Suc k. s' ! i = ?s1 ! i"
    "\<forall>t. Suc k \<le> t \<and> t < n \<longrightarrow> s' ! t = alpha * s' ! (t - 1) + draw R g' (t - Suc k)"
    by auto
  have step: "ar_loop R alpha [k ..< n] series g = ar_loop R alpha [Suc k ..< n] ?s1 g'"
    using kn Suc.prems rn by (simp add: upt_conv_Cons getitem_def setitem_def)
  have nk: "n - k = Suc (n - Suc k)" using kn by simp
  have adv: "advance R g (n - k) = advance R g' (n - Suc k)"
    unfolding nk using rn by simp
  have low: "\<forall>i < k. s' ! i = series ! i"
    using s'(3) by auto
  have at_k: "s' ! k = alpha * s' ! (k - 1) + draw R g 0"
  proof -
    have "s' ! k = ?s1 ! k" using s'(3) by simp
    also have "\<dots> = alpha * series ! (k - 1) + eps" using kn Suc.prems by simp
    also have "series ! (k - 1) = s' ! (k - 1)" using low Suc.prems by simp
    finally show ?thesis using rn by (simp add: draw_def)
  qed
  have above: "\<forall>t. k \<le> t \<and> t < n \<longrightarrow> s' ! t = alpha * s' ! (t - 1) + draw R g (t - k)"
  proof (intro allI impI)
    fix t assume t: "k \<le> t \<and> t < n"
    show "s' ! t = alpha * s' ! (t - 1) + draw R g (t - k)"
    proof (cases "t = k")
      case True
      then show ?thesis using at_k by simp
    next
      case False
      then have "Suc k \<le> t" using t by simp
      then have "s' ! t = alpha * s' ! (t - 1) + draw R g' (t - Suc k)" using s'(4) t by simp
      moreover have "t - k = Suc (t - Suc k)" using \<open>Suc k \<le> t\<close> by simp
      then have "draw R g (t - k) = draw R g' (t - Suc k)"
        using rn by (simp add: draw_def)
      ultimately show ?thesis by simp
    qed
  qed
  show ?case using step s'(1,2) adv low above by simp
qed

section \<open>The generator, case by case\<close>

lemma generate_seeded:
  "0 \<le> s \<Longrightarrow> s < 2 ^ 32 \<Longrightarrow>
   generate_markov_chain R n alpha (Some s) g = generate_markov_chain R n alpha None (mt_seed R s)"
  by (simp add: generate_markov_chain_def np_random_seed_def)

lemma generate_rejected_seed:
  "\<not> (0 \<le> s \<and> s < 2 ^ 32) \<Longrightarrow>
   generate_markov_chain R n alpha (Some s) g = (Inl ValueError, g)"
  by (auto simp: generate_markov_chain_def np_random_seed_def)

lemma generate_negative:
  "n < 0 \<Longrightarrow> generate_markov_chain R n alpha None g = (Inl ValueError, g)"
  by (simp add: generate_markov_chain_def np_zeros_def)

lemma generate_zero:
  "generate_markov_chain R 0 alpha None g = (Inl IndexError, snd (randn R g))"
  by (simp add: generate_markov_chain_def np_zeros_def setitem_def split: prod.splits)

lemma generate_unseeded:
  assumes "1 \<le> n"
  shows "\<exists>series. generate_markov_chain R n alpha None g = (Inr series, advance R g (nat n))
     \<and> length series = nat n
     \<and> series ! 0 = draw R g 0
     \<and> (\<forall>t. 1 \<le> t \<and> t < nat n \<longrightarrow> series ! t = alpha * series ! (t - 1) + draw R g t)"
proof -
  obtain x0 g2 where rn: "randn R g = (x0, g2)" by (cases "randn R g")
  let ?s1 = "(replicate (nat n) (0::real))[0 := x0]"
  have len: "length ?s1 = nat n" by simp
  have pos: "1 \<le> nat n" using assms by simp
  have "\<exists>series'. ar_loop R alpha [1 ..< nat n] ?s1 g2 = (Inr series', advance R g2 (nat n - 1))
     \<and> length series' = nat n
     \<and> (\<forall>i < 1. series' ! i = ?s1 ! i)
     \<and> (\<forall>t. 1 \<le> t \<and> t < nat n \<longrightarrow> series' ! t = alpha * series' ! (t - 1) + draw R g2 (t - 1))"
    by (rule ar_loop_upt) (use pos in simp_all)
  then obtain s' where s': "ar_loop R alpha [1 ..< nat n] ?s1 g2 = (Inr s', advance R g2 (nat n - 1))"
    "length s' = nat n" "\<forall>i < 1. s' ! i = ?s1 ! i"
    "\<forall>t. 1 \<le> t \<and> t < nat n \<longrightarrow> s' ! t = alpha * s' ! (t - 1) + draw R g2 (t - 1)"
    by auto
  have run: "generate_markov_chain R n alpha None g = ar_loop R alpha [1 ..< nat n] ?s1 g2"
    using assms rn by (simp add: generate_markov_chain_def np_zeros_def setitem_def py_range_def)
  have nn: "nat n = Suc (nat n - 1)" using pos by simp
  have adv: "advance R g (nat n) = advance R g2 (nat n - 1)"
    using rn by (subst nn) simp
  have first: "s' ! 0 = draw R g 0"
    using s'(3) pos rn by (simp add: draw_def)
  have later: "\<forall>t. 1 \<le> t \<and> t < nat n \<longrightarrow> s' ! t = alpha * s' ! (t - 1) + draw R g t"
  proof (intro allI impI)
    fix t assume t: "1 \<le> t \<and> t < nat n"
    then have "t = Suc (t - 1)" by simp
    then have "draw R g t = draw R g2 (t - 1)"
      using rn by (metis advance.simps(2) draw_def snd_conv)
    then show "s' ! t = alpha * s' ! (t - 1) + draw R g t" using s'(4) t by simp
  qed
  show ?thesis using run s'(1,2) adv first later by simp
qed

lemma generate_returns:
  assumes "1 \<le> n" "0 \<le> s" "s < 2 ^ 32"
  shows "\<exists>series. generate_markov_chain R n alpha (Some s) g
           = (Inr series, advance R (mt_seed R s) (nat n))
     \<and> length series = nat n
     \<and> series ! 0 = draw R (mt_seed R s) 0
     \<and> (\<forall>t. 1 \<le> t \<and> t < nat n \<longrightarrow>
           series ! t = alpha * series ! (t - 1) + draw R (mt_seed R s) t)"
  using generate_unseeded[OF assms(1), of R alpha "mt_seed R s"]
    generate_seeded[OF assms(2,3), of R n alpha g]
  by simp

lemmas generate_eval = generate_markov_chain_def np_random_seed_def np_zeros_def setitem_def
  getitem_def py_range_def counter_source_def upt_rec draw_def eval_nat_numeral

section \<open>Claims about the generator\<close>

text \<open>
  C1, as the code has it. For every \<open>num_points \<ge> 1\<close>, every \<open>alpha\<close> and every seed in
  \<open>0 .. 2**32 - 1\<close>, \<open>generate_markov_chain\<close> returns a trajectory whose element 0 is
  the first draw of the random source seeded with that seed, and whose element \<open>t\<close>, for
  \<open>t\<close> in \<open>1 .. num_points - 1\<close>, is \<open>alpha\<close> times element \<open>t - 1\<close> plus the next draw
  of the source (draw number \<open>t\<close>: every element consumes one fresh draw, in order). That
  the draws are standard normal and independent is a property of the library's \<open>randn\<close>,
  which is a parameter here.
\<close>

theorem generate_recurrence:
  assumes "1 \<le> num_points" "0 \<le> seed" "seed < 2 ^ 32"
  shows "\<exists>series g'. generate_markov_chain R num_points alpha (Some seed) g = (Inr series, g')
     \<and> series ! 0 = draw R (mt_seed R seed) 0
     \<and> (\<forall>t \<in> {1 ..< nat num_points}.
           series ! t = alpha * series ! (t - 1) + draw R (mt_seed R seed) t)"
  using generate_returns[OF assms, of R alpha g] by auto

theorem generate_recurrence_witness:
  "generate_markov_chain counter_source 3 (1/2) (Some 7) 0 = (Inr [7, 23/2, 59/4], 10)
   \<and> [7, 23/2, 59/4] ! 0 = draw counter_source (mt_seed counter_source 7) 0
   \<and> [7, 23/2, 59/4 :: real] ! 1
       = (1/2) * [7, 23/2, 59/4] ! 0 + draw counter_source (mt_seed counter_source 7) 1
   \<and> [7, 23/2, 59/4 :: real] ! 2
       = (1/2) * [7, 23/2, 59/4] ! 1 + draw counter_source (mt_seed counter_source 7) 2"
proof -
  have run: "generate_markov_chain counter_source 3 (1/2) (Some 7) 0 = (Inr [7, 23/2, 59/4], 10)"
    by (simp add: generate_eval)
  have "(1::int) \<le> 3" "(0::int) \<le> 7" "(7::int) < 2 ^ 32" by simp_all
  from generate_recurrence[OF this, of counter_source "1/2" 0] run
  have "[7, 23/2, 59/4] ! 0 = draw counter_source (mt_seed counter_source 7) 0 \<and>
        (\<forall>t \<in> {1 ..< nat 3}. [7, 23/2, 59/4 :: real] ! t
            = (1/2) * [7, 23/2, 59/4] ! (t - 1) + draw counter_source (mt_seed counter_source 7) t)"
    by auto
  moreover have "(1::nat) \<in> {1 ..< nat 3}" "(2::nat) \<in> {1 ..< nat 3}" by simp_all
  ultimately show ?thesis
    using run by (metis diff_self_eq_0 diff_Suc_1 Suc_1 numeral_2_eq_2 One_nat_def)
qed

text \<open>C1 as stated fails for a seed that \<open>np.random.seed\<close> rejects: with the seed \<open>-1\<close> the
  call raises \<open>ValueError\<close> and returns no trajectory.\<close>

theorem generate_recurrence_counterexample:
  "generate_markov_chain counter_source 3 (1/2) (Some (- 1)) 0 = (Inl ValueError, 0)"
  by (simp add: generate_eval)

text \<open>
  C9, as the code has it. For every \<open>num_points \<ge> 1\<close>, every \<open>alpha\<close> and every seed in
  \<open>0 .. 2**32 - 1\<close>, \<open>generate_markov_chain\<close> returns a trajectory of exactly
  \<open>num_points\<close> elements.
\<close>

theorem generate_length:
  assumes "1 \<le> num_points" "0 \<le> seed" "seed < 2 ^ 32"
  shows "\<exists>series g'. generate_markov_chain R num_points alpha (Some seed) g = (Inr series, g')
     \<and> int (length series) = num_points"
proof -
  obtain series where
    "generate_markov_chain R num_points alpha (Some seed) g
       = (Inr series, advance R (mt_seed R seed) (nat num_points))"
    "length series = nat num_points"
    using generate_returns[OF assms, of R alpha g] by blast
  then show ?thesis using assms(1) by auto
qed

theorem generate_length_witness:
  "generate_markov_chain counter_source 4 2 (Some 1) 9 = (Inr [1, 4, 11, 26], 5)
   \<and> int (length [1, 4, 11, 26 :: real]) = 4"
proof -
  have run: "generate_markov_chain counter_source 4 2 (Some 1) 9 = (Inr [1, 4, 11, 26], 5)"
    by (simp add: generate_eval)
  have "(1::int) \<le> 4" "(0::int) \<le> 1" "(1::int) < 2 ^ 32" by simp_all
  from generate_length[OF this, of counter_source 2 9] run
  show ?thesis by auto
qed

text \<open>C9 as stated fails for a seed that \<open>np.random.seed\<close> rejects: with the seed
  \<open>2**32\<close> the call raises \<open>ValueError\<close>, and there is no trajectory to measure.\<close>

theorem generate_length_counterexample:
  "generate_markov_chain counter_source 2 1 (Some (2 ^ 32)) 7 = (Inl ValueError, 7)"
  by (simp add: generate_eval)






lemma generate_accepted:
  "seed_accepted random_seed \<Longrightarrow>
   \<exists>g0. generate_markov_chain R n alpha random_seed g = generate_markov_chain R n alpha None g0"
  by (cases random_seed) (auto simp: seed_accepted_def generate_seeded)

text \<open>
  C6, as the code has it. The generator has no check of its own; what fails is NumPy.
  A seed outside \<open>0 .. 2**32 - 1\<close> raises \<open>ValueError\<close> whatever \<open>num_points\<close> is. With
  no seed or an accepted one, \<open>num_points < 0\<close> raises \<open>ValueError\<close> (the allocation),
  \<open>num_points = 0\<close> raises \<open>IndexError\<close> (the write of element 0, after one draw has
  been taken), and \<open>num_points \<ge> 1\<close> raises nothing.
\<close>

theorem generate_errors:
  "(\<not> seed_accepted random_seed \<longrightarrow>
      fst (generate_markov_chain R num_points alpha random_seed g) = Inl ValueError)
   \<and> (seed_accepted random_seed \<and> num_points < 0 \<longrightarrow>
      fst (generate_markov_chain R num_points alpha random_seed g) = Inl ValueError)
   \<and> (seed_accepted random_seed \<and> num_points = 0 \<longrightarrow>
      fst (generate_markov_chain R num_points alpha random_seed g) = Inl IndexError)
   \<and> (seed_accepted random_seed \<and> 1 \<le> num_points \<longrightarrow>
      (\<exists>series. fst (generate_markov_chain R num_points alpha random_seed g) = Inr series))"
proof (intro conjI impI)
  assume "\<not> seed_accepted random_seed"
  then obtain s where "random_seed = Some s" "\<not> (0 \<le> s \<and> s < 2 ^ 32)"
    by (cases random_seed) (auto simp: seed_accepted_def)
  then show "fst (generate_markov_chain R num_points alpha random_seed g) = Inl ValueError"
    by (simp add: generate_rejected_seed)
next
  assume h: "seed_accepted random_seed \<and> num_points < 0"
  then obtain g0 where "generate_markov_chain R num_points alpha random_seed g
      = generate_markov_chain R num_points alpha None g0"
    using generate_accepted[of random_seed R num_points alpha g] by blast
  then show "fst (generate_markov_chain R num_points alpha random_seed g) = Inl ValueError"
    using h by (simp add: generate_negative)
next
  assume h: "seed_accepted random_seed \<and> num_points = 0"
  then obtain g0 where "generate_markov_chain R num_points alpha random_seed g
      = generate_markov_chain R num_points alpha None g0"
    using generate_accepted[of random_seed R num_points alpha g] by blast
  then show "fst (generate_markov_chain R num_points alpha random_seed g) = Inl IndexError"
    using h by (simp add: generate_zero)
next
  assume h: "seed_accepted random_seed \<and> 1 \<le> num_points"
  then obtain g0 where "generate_markov_chain R num_points alpha random_seed g
      = generate_markov_chain R num_points alpha None g0"
    using generate_accepted[of random_seed R num_points alpha g] by blast
  moreover obtain series where "generate_markov_chain R num_points alpha None g0
      = (Inr series, advance R g0 (nat num_points))"
    using generate_unseeded[of num_points R alpha g0] h by blast
  ultimately show "\<exists>series. fst (generate_markov_chain R num_points alpha random_seed g) = Inr series"
    by simp
qed

theorem generate_errors_witness:
  "fst (generate_markov_chain counter_source 5 1 (Some (2 ^ 32)) 0) = Inl ValueError
   \<and> fst (generate_markov_chain counter_source (- 2) 1 (Some 3) 0) = Inl ValueError
   \<and> fst (generate_markov_chain counter_source 0 1 None 0) = Inl IndexError
   \<and> (\<exists>series. fst (generate_markov_chain counter_source 5 1 (Some (2 ^ 32 - 1)) 0) = Inr series)"
  using generate_errors[of "Some (2 ^ 32)" counter_source 5 1 0]
    generate_errors[of "Some 3" counter_source "- 2" 1 0]
    generate_errors[of None counter_source 0 1 0]
    generate_errors[of "Some (2 ^ 32 - 1)" counter_source 5 1 0]
  by (simp add: seed_accepted_def)

text \<open>C6 as stated fails: with \<open>num_points = 1\<close> and the seed \<open>-1\<close> the call raises, and with
  \<open>num_points = 0\<close> the error is an \<open>IndexError\<close>.\<close>

theorem generate_errors_counterexample:
  "fst (generate_markov_chain counter_source 1 0 (Some (- 1)) 0) = Inl ValueError
   \<and> fst (generate_markov_chain counter_source 0 0 (Some 42) 0) = Inl IndexError"
  by (simp add: generate_eval)

section \<open>Claims about the smoother\<close>

lemma moving_average_window:
  "0 \<le> w \<Longrightarrow>
   moving_average s w = np_convolve_valid s (replicate (nat w) (1 / of_int w))"
  by (simp add: moving_average_def np_ones_def)




lemma moving_average_fits:
  assumes "1 \<le> w" "w \<le> int (length s)"
  shows "moving_average s w = Inr (np_correlate_valid s (replicate (nat w) (1 / of_int w)))"
proof -
  have "\<not> length s < nat w" "length s \<noteq> 0" "nat w \<noteq> 0" using assms by auto
  then show ?thesis
    using assms by (simp add: moving_average_window np_convolve_valid_def)
qed








text \<open>
  C8. A window of size 1 is the identity: for every trajectory \<open>s\<close> (a trajectory has at
  least one element), \<open>moving_average(s, 1)\<close> returns \<open>s\<close>.
\<close>

theorem moving_average_identity:
  assumes "s \<noteq> []"
  shows "moving_average s 1 = Inr s"
proof -
  have "(1::int) \<le> int (length s)" using assms by (cases s) simp_all
  then have "moving_average s 1 = Inr (np_correlate_valid s (replicate (nat 1) (1 / of_int 1)))"
    by (intro moving_average_fits) simp_all
  also have "np_correlate_valid s (replicate (nat 1) (1 / of_int 1)) = map (\<lambda>i. s ! i) [0 ..< length s]"
    using assms by (simp add: np_correlate_valid_def del: upt_Suc)
  also have "\<dots> = s" by (rule map_nth)
  finally show ?thesis .
qed

theorem moving_average_identity_witness:
  "[3, 1, 2 :: real] \<noteq> [] \<and> moving_average [3, 1, 2] 1 = Inr [3, 1, 2]"
  using moving_average_identity[of "[3, 1, 2]"] by simp




section \<open>Claims about the series of every coefficient\<close>












end
